theory Spec2Isabelle
  imports Main
begin

section \<open>Python strings and errors\<close>

text \<open>
  A Python \<open>str\<close> is modelled as a \<open>string\<close>, a list of characters whose codes are read
  as code points below 256. The exceptions the modelled code can raise are values of
  \<open>error\<close>: the \<open>ValueError\<close> of \<open>Book.cite\<close> with its message, and the
  \<open>IndexError\<close> of an index into an empty list.
\<close>

datatype error = ValueError string | IndexError

text \<open>\<open>sep.join(xs)\<close>\<close>

fun str_join :: "string \<Rightarrow> string list \<Rightarrow> string" where
  "str_join sep [] = []"
| "str_join sep [x] = x"
| "str_join sep (x # y # ys) = x @ sep @ str_join sep (y # ys)"

text \<open>
  \<open>c.isspace()\<close> for a code point below 256: tab, line feed, vertical tab, form feed,
  carriage return, the four separators 0x1C to 0x1F, space, NEL and the no-break space.
\<close>

definition isspace :: "char \<Rightarrow> bool" where
  "isspace c =
     (let n = (of_char c :: nat)
      in (9 \<le> n \<and> n \<le> 13) \<or> (28 \<le> n \<and> n \<le> 32) \<or> n = 133 \<or> n = 160)"

text \<open>
  \<open>s.split()\<close> with no separator: the maximal runs of characters that are not
  whitespace, in order; \<open>tok\<close> is the run being read.
\<close>

fun split_ws :: "string \<Rightarrow> string \<Rightarrow> string list" where
  "split_ws tok [] = (if tok = [] then [] else [tok])"
| "split_ws tok (c # cs) =
     (if isspace c then (if tok = [] then split_ws [] cs else tok # split_ws [] cs)
      else split_ws (tok @ [c]) cs)"

definition split :: "string \<Rightarrow> string list" where
  "split s = split_ws [] s"

text \<open>\<open>c.lower()\<close> for a code point below 256, and \<open>s.lower()\<close>.\<close>

definition lower_char :: "char \<Rightarrow> char" where
  "lower_char c =
     (let n = (of_char c :: nat)
      in if (65 \<le> n \<and> n \<le> 90) \<or> (192 \<le> n \<and> n \<le> 222 \<and> n \<noteq> 215)
         then char_of (n + 32) else c)"

definition lower :: "string \<Rightarrow> string" where
  "lower s = map lower_char s"

text \<open>\<open>xs[0]\<close>, which raises on the empty list.\<close>

definition index0 :: "'a list \<Rightarrow> error + 'a" where
  "index0 xs = (case xs of [] \<Rightarrow> Inl IndexError | x # _ \<Rightarrow> Inr x)"

text \<open>
  The truth value of an optional list or string in a condition: \<open>None\<close> and the empty
  value are both false. \<open>items_of\<close> is what a loop over a true value runs through.
\<close>

definition truthy :: "'a list option \<Rightarrow> bool" where
  "truthy v = (case v of None \<Rightarrow> False | Some xs \<Rightarrow> xs \<noteq> [])"

definition items_of :: "'a list option \<Rightarrow> 'a list" where
  "items_of v = (case v of None \<Rightarrow> [] | Some xs \<Rightarrow> xs)"


section \<open>scholar.py: the query builder\<close>

text \<open>
  \<open>build_query\<close>, in the order of the source: the term group is appended to
  \<open>query_parts\<close>, then one part per exact phrase, the parts are joined, and the intitle
  and exclusion suffixes are added to the growing \<open>query\<close>.
\<close>

definition add_terms :: "string list \<Rightarrow> string list \<Rightarrow> string list" where
  "add_terms query_parts terms =
     (if terms \<noteq> [] then
        (if length terms = 1 then query_parts @ [terms ! 0]
         else query_parts @ [''('' @ str_join '' OR '' terms @ '')''])
      else query_parts)"

definition add_phrase :: "string list \<Rightarrow> string \<Rightarrow> string list" where
  \<open>add_phrase query_parts phrase =
     (if CHR '' '' \<in> set phrase then query_parts @ [''"'' @ phrase @ ''"'']
      else query_parts @ [phrase])\<close>

definition add_phrases :: "string list \<Rightarrow> string list option \<Rightarrow> string list" where
  "add_phrases query_parts exact_phrases =
     (if truthy exact_phrases then foldl add_phrase query_parts (items_of exact_phrases)
      else query_parts)"

definition join_parts :: "string list \<Rightarrow> string" where
  "join_parts query_parts =
     (if length query_parts > 1 then str_join '' AND '' query_parts
      else str_join [] query_parts)"

definition add_intitle :: "string \<Rightarrow> string option \<Rightarrow> string" where
  \<open>add_intitle query intitle =
     (if truthy intitle then query @ '' intitle:"'' @ items_of intitle @ ''"'' else query)\<close>

definition add_exclusions :: "string \<Rightarrow> string list option \<Rightarrow> string" where
  "add_exclusions query exclude_terms =
     (if truthy exclude_terms
      then foldl (\<lambda>q term. q @ '' -'' @ term) query (items_of exclude_terms)
      else query)"

definition build_query ::
  "string list \<Rightarrow> string list option \<Rightarrow> string list option \<Rightarrow> string option \<Rightarrow> string"
where
  "build_query terms exact_phrases exclude_terms intitle =
     (let query_parts = add_terms [] terms;
          query_parts = add_phrases query_parts exact_phrases;
          query = join_parts query_parts;
          query = add_intitle query intitle;
          query = add_exclusions query exclude_terms
      in query)"

text \<open>The parts of the query before they are joined, and the joined term and phrase group.\<close>

definition query_parts :: "string list \<Rightarrow> string list option \<Rightarrow> string list" where
  "query_parts terms exact_phrases = add_phrases (add_terms [] terms) exact_phrases"

definition and_group :: "string list \<Rightarrow> string list option \<Rightarrow> string" where
  "and_group terms exact_phrases = join_parts (query_parts terms exact_phrases)"


section \<open>scholar.py: records and upstream results\<close>

text \<open>
  The values found in an upstream response, and a response as a dictionary from keys
  to such values. \<open>d.get(key, default)\<close> gives the default only when the key is
  missing; \<open>d.get(key)\<close> has the default \<open>None\<close>.
\<close>

datatype pyval = PyNone | PyInt int | PyStr string | PyList "pyval list"

type_synonym pydict = "string \<rightharpoonup> pyval"

definition dict_get :: "pydict \<Rightarrow> string \<Rightarrow> pyval \<Rightarrow> pyval" where
  "dict_get d key dflt = (case d key of None \<Rightarrow> dflt | Some v \<Rightarrow> v)"

text \<open>
  The dataclasses \<open>Publication\<close> and \<open>Author\<close>. Their fields carry the prefix \<open>p_\<close> and
  \<open>a_\<close> here, since \<open>title\<close>, \<open>authors\<close> and \<open>citations\<close> name fields of more than one
  class. A field holds whatever value the response had under its key.
\<close>

record Publication =
  p_title :: pyval
  p_authors :: pyval
  p_year :: pyval
  p_abstract :: pyval
  p_citations :: pyval
  p_url :: pyval
  p_pub_url :: pyval

record Author =
  a_name :: pyval
  a_affiliation :: pyval
  a_email_domain :: pyval
  a_citations :: pyval
  a_h_index :: pyval
  a_i10_index :: pyval
  a_interests :: pyval
  a_scholar_id :: pyval

text \<open>
  A result of the publication search: a dictionary whose entry \<open>bib\<close>, when there is
  one, is a dictionary itself; \<open>entries\<close> holds the other keys.
\<close>

record pub_result =
  bib :: "pydict option"
  entries :: pydict

text \<open>The body of the loop of \<open>search_publications\<close> up to the \<open>yield\<close>.\<close>

definition publication_of :: "pub_result \<Rightarrow> Publication" where
  "publication_of result =
     (let b = (case bib result of None \<Rightarrow> Map.empty | Some d \<Rightarrow> d)
      in \<lparr>p_title = dict_get b ''title'' (PyStr ''Unknown''),
          p_authors = dict_get b ''author'' (PyList []),
          p_year = dict_get b ''pub_year'' PyNone,
          p_abstract = dict_get b ''abstract'' PyNone,
          p_citations = dict_get (entries result) ''num_citations'' (PyInt 0),
          p_url = dict_get (entries result) ''eprint_url'' PyNone,
          p_pub_url = dict_get (entries result) ''pub_url'' PyNone\<rparr>)"

text \<open>The \<open>Author\<close> built in \<open>search_authors\<close> and in \<open>get_author_details\<close>.\<close>

definition author_of :: "pydict \<Rightarrow> Author" where
  "author_of result =
     \<lparr>a_name = dict_get result ''name'' (PyStr ''Unknown''),
      a_affiliation = dict_get result ''affiliation'' PyNone,
      a_email_domain = dict_get result ''email_domain'' PyNone,
      a_citations = dict_get result ''citedby'' (PyInt 0),
      a_h_index = dict_get result ''hindex'' (PyInt 0),
      a_i10_index = dict_get result ''i10index'' (PyInt 0),
      a_interests = dict_get result ''interests'' (PyList []),
      a_scholar_id = dict_get result ''scholar_id'' PyNone\<rparr>"


section \<open>scholar.py: the search generators\<close>

text \<open>
  \<open>search_publications\<close> and \<open>search_authors\<close> are generators over the same loop:
  \<^verbatim>\<open>
  count = 0
  for result in search_query:
      if count >= limit:
          break
      ...
      yield record
      count += 1
  \<close>
  A generator is its frame: what the upstream iterator \<open>search_query\<close> has still to
  give, \<open>limit\<close>, \<open>count\<close>, and where the body stands (not started, suspended at the
  \<open>yield\<close>, finished). The upstream iterator is a finite list of results that it hands
  out one by one without a fault.
\<close>

datatype gen_pc = NotStarted | AtYield | Finished

record 'r generator =
  search_query :: "'r list"
  limit :: int
  count :: int
  pc :: gen_pc

text \<open>
  One turn of the \<open>for\<close> loop from its head: the next result is taken from the
  upstream iterator first, and only then is \<open>count\<close> compared with \<open>limit\<close>.
\<close>

definition loop_turn :: "('r \<Rightarrow> 'p) \<Rightarrow> 'r generator \<Rightarrow> 'p option \<times> 'r generator" where
  "loop_turn record_of g =
     (case search_query g of
        [] \<Rightarrow> (None, g\<lparr>pc := Finished\<rparr>)
      | result # rest \<Rightarrow>
          if count g \<ge> limit g then (None, g\<lparr>search_query := rest, pc := Finished\<rparr>)
          else (Some (record_of result), g\<lparr>search_query := rest, pc := AtYield\<rparr>))"

text \<open>
  \<open>next(gen)\<close>: the record yielded and the frame afterwards, or \<open>None\<close> for
  \<open>StopIteration\<close>.
\<close>

definition gen_next :: "('r \<Rightarrow> 'p) \<Rightarrow> 'r generator \<Rightarrow> 'p option \<times> 'r generator" where
  "gen_next record_of g =
     (case pc g of
        NotStarted \<Rightarrow> loop_turn record_of (g\<lparr>count := 0\<rparr>)
      | AtYield \<Rightarrow> loop_turn record_of (g\<lparr>count := count g + 1\<rparr>)
      | Finished \<Rightarrow> (None, g))"

text \<open>
  The generator that a call returns; nothing runs before the first \<open>next\<close>.
  \<open>search_pubs\<close> and \<open>search_author\<close> stand for the results of the upstream calls
  \<open>scholarly.search_pubs(query, year_low, year_high)\<close> and
  \<open>scholarly.search_author(query)\<close>.
\<close>

definition search_publications ::
  "(string \<Rightarrow> int option \<Rightarrow> int option \<Rightarrow> pub_result list) \<Rightarrow>
   string \<Rightarrow> int \<Rightarrow> int option \<Rightarrow> int option \<Rightarrow> pub_result generator"
where
  "search_publications search_pubs query lim year_start year_end =
     \<lparr>search_query = search_pubs query year_start year_end, limit = lim, count = 0,
      pc = NotStarted\<rparr>"

definition search_authors ::
  "(string \<Rightarrow> pydict list) \<Rightarrow> string \<Rightarrow> int \<Rightarrow> pydict generator"
where
  "search_authors search_author query lim =
     \<lparr>search_query = search_author query, limit = lim, count = 0, pc = NotStarted\<rparr>"

text \<open>
  \<open>list(gen)\<close>, as the command line and the tests consume the generators: \<open>next\<close> until
  \<open>StopIteration\<close>. The result is the list of records and the frame at the end.
\<close>

function list_of_gen :: "('r \<Rightarrow> 'p) \<Rightarrow> 'r generator \<Rightarrow> 'p list \<times> 'r generator" where
  "list_of_gen record_of g =
     (case gen_next record_of g of
        (None, g') \<Rightarrow> ([], g')
      | (Some p, g') \<Rightarrow>
          (case list_of_gen record_of g' of (ps, g'') \<Rightarrow> (p # ps, g'')))"
  by pat_completeness auto
termination
  by (relation "measure (\<lambda>(record_of, g). length (search_query g))")
    (auto simp add: gen_next_def loop_turn_def split: gen_pc.splits list.splits if_splits)

declare list_of_gen.simps [simp del]

text \<open>How many results have been taken from the upstream iterator \<open>upstream\<close> so far.\<close>

definition taken :: "'r list \<Rightarrow> 'r generator \<Rightarrow> nat" where
  "taken upstream g = length upstream - length (search_query g)"

text \<open>
  \<open>get_author_details\<close>. The upstream library is a pair of calls that either raise
  an exception of some type \<open>'e\<close> or give a dictionary.
\<close>

record 'e scholarly =
  search_author_id :: "string \<Rightarrow> 'e + pydict"
  fill :: "pydict \<Rightarrow> 'e + pydict"

definition get_author_details :: "'e scholarly \<Rightarrow> string \<Rightarrow> Author option" where
  "get_author_details scholarly scholar_id =
     (case search_author_id scholarly scholar_id of
        Inl e \<Rightarrow> None
      | Inr result \<Rightarrow>
          (case fill scholarly result of
             Inl e \<Rightarrow> None
           | Inr result \<Rightarrow> Some (author_of result)))"

text \<open>Upstream results used as concrete inputs below.\<close>

definition paper :: "nat \<Rightarrow> pub_result" where
  "paper i =
     \<lparr>bib = Some [''title'' \<mapsto> PyStr ''Paper'', ''author'' \<mapsto> PyList []],
      entries = [''num_citations'' \<mapsto> PyInt (int i)]\<rparr>"

definition ten_papers :: "string \<Rightarrow> int option \<Rightarrow> int option \<Rightarrow> pub_result list" where
  "ten_papers query year_low year_high = map paper [0..<10]"


definition lookup_fails :: "string scholarly" where
  "lookup_fails =
     \<lparr>search_author_id = (\<lambda>scholar_id. Inl ''MaxTriesExceededException''),
      fill = (\<lambda>result. Inr result)\<rparr>"

definition fill_fails :: "string scholarly" where
  "fill_fails =
     \<lparr>search_author_id = (\<lambda>scholar_id. Inr [''scholar_id'' \<mapsto> PyStr scholar_id]),
      fill = (\<lambda>result. Inl ''MaxTriesExceededException'')\<rparr>"

definition lookup_succeeds :: "string scholarly" where
  "lookup_succeeds =
     \<lparr>search_author_id = (\<lambda>scholar_id. Inr [''scholar_id'' \<mapsto> PyStr scholar_id]),
      fill = (\<lambda>result. Inr (result(''name'' \<mapsto> PyStr ''Jane'', ''hindex'' \<mapsto> PyInt 5)))\<rparr>"


section \<open>books.py: the Book record and its citations\<close>

record Book =
  title :: string
  authors :: "string list"
  publisher :: "string option"
  published_date :: "string option"
  description :: "string option"
  page_count :: "int option"
  categories :: "string list"
  preview_link :: "string option"
  info_link :: "string option"
  isbn_10 :: "string option"
  isbn_13 :: "string option"

text \<open>The property \<open>year\<close>: \<open>published_date[:4]\<close>, or \<open>n.d.\<close> without a date.\<close>

definition year :: "Book \<Rightarrow> string" where
  "year b =
     (if truthy (published_date b) then take 4 (items_of (published_date b)) else ''n.d.'')"

text \<open>\<open>self.publisher or "Publisher unknown"\<close>\<close>

definition publisher_or_unknown :: "Book \<Rightarrow> string" where
  "publisher_or_unknown b =
     (if truthy (publisher b) then items_of (publisher b) else ''Publisher unknown'')"

text \<open>
  The initials \<open>f"{p[0]}." for p in parts[:-1]\<close>; \<open>p[0]\<close> raises on an empty \<open>p\<close>.
\<close>

fun initials :: "string list \<Rightarrow> error + string list" where
  "initials [] = Inr []"
| "initials (p # ps) =
     (case index0 p of
        Inl e \<Rightarrow> Inl e
      | Inr c \<Rightarrow>
          (case initials ps of
             Inl e \<Rightarrow> Inl e
           | Inr rest \<Rightarrow> Inr ([c, CHR ''.''] # rest)))"

text \<open>
  The body of the loop over the authors in \<open>_format_authors_apa\<close> and
  \<open>_format_authors_harvard\<close>, which differ in the separator \<open>sep\<close> of the initials
  (a space for APA, nothing for Harvard): what is appended to \<open>formatted\<close>.
\<close>

definition format_name :: "string \<Rightarrow> string \<Rightarrow> error + string" where
  "format_name sep author =
     (let parts = split author
      in if length parts \<ge> 2 then
           (case initials (butlast parts) of
              Inl e \<Rightarrow> Inl e
            | Inr ins \<Rightarrow> Inr (last parts @ '', '' @ str_join sep ins))
         else Inr author)"

text \<open>The loop itself: \<open>formatted\<close> grows by one entry for each author.\<close>

fun format_loop :: "string \<Rightarrow> string list \<Rightarrow> string list \<Rightarrow> error + string list" where
  "format_loop sep formatted [] = Inr formatted"
| "format_loop sep formatted (author # rest) =
     (case format_name sep author of
        Inl e \<Rightarrow> Inl e
      | Inr f \<Rightarrow> format_loop sep (formatted @ [f]) rest)"

text \<open>The list \<open>formatted\<close> at the end of the loop, for APA and for Harvard.\<close>

definition formatted_apa :: "Book \<Rightarrow> error + string list" where
  "formatted_apa b = format_loop '' '' [] (authors b)"

definition formatted_harvard :: "Book \<Rightarrow> error + string list" where
  "formatted_harvard b = format_loop [] [] (authors b)"

definition format_authors_apa :: "Book \<Rightarrow> error + string" where
  "format_authors_apa b =
     (if authors b = [] then Inr ''Unknown Author''
      else
        (case formatted_apa b of
           Inl e \<Rightarrow> Inl e
         | Inr formatted \<Rightarrow>
             if length formatted = 1 then Inr (formatted ! 0)
             else if length formatted = 2 then Inr (formatted ! 0 @ '' & '' @ formatted ! 1)
             else Inr (str_join '', '' (butlast formatted) @ '', & '' @ last formatted)))"

definition format_authors_harvard :: "Book \<Rightarrow> error + string" where
  "format_authors_harvard b =
     (if authors b = [] then Inr ''Unknown Author''
      else
        (case formatted_harvard b of
           Inl e \<Rightarrow> Inl e
         | Inr formatted \<Rightarrow>
             if length formatted = 1 then Inr (formatted ! 0)
             else if length formatted = 2 then Inr (formatted ! 0 @ '' and '' @ formatted ! 1)
             else Inr (str_join '', '' (butlast formatted) @ '' and '' @ last formatted)))"

text \<open>
  \<open>first_formatted\<close> of the branches of \<open>_format_authors_mla\<close> for two and for more
  authors: \<open>f"{first[-1]}, {' '.join(first[:-1])}" if len(first) >= 2 else first[0]\<close>.
  The index \<open>first[0]\<close> raises when the first author has no token.
\<close>

definition first_formatted :: "string list \<Rightarrow> error + string" where
  "first_formatted first =
     (if length first \<ge> 2 then Inr (last first @ '', '' @ str_join '' '' (butlast first))
      else index0 first)"

definition format_authors_mla :: "Book \<Rightarrow> error + string" where
  "format_authors_mla b =
     (if authors b = [] then Inr ''Unknown Author''
      else if length (authors b) = 1 then
        (let parts = split (authors b ! 0)
         in if length parts \<ge> 2
            then Inr (last parts @ '', '' @ str_join '' '' (butlast parts))
            else Inr (authors b ! 0))
      else if length (authors b) = 2 then
        (case first_formatted (split (authors b ! 0)) of
           Inl e \<Rightarrow> Inl e
         | Inr ff \<Rightarrow> Inr (ff @ '', and '' @ authors b ! 1))
      else
        (case first_formatted (split (authors b ! 0)) of
           Inl e \<Rightarrow> Inl e
         | Inr ff \<Rightarrow> Inr (ff @ '', et al.'')))"

definition format_authors_chicago :: "Book \<Rightarrow> error + string" where
  "format_authors_chicago b = format_authors_mla b"

text \<open>\<open>s.endswith(".")\<close>\<close>

definition ends_with_period :: "string \<Rightarrow> bool" where
  "ends_with_period s = (s \<noteq> [] \<and> last s = CHR ''.'')"

definition cite_apa :: "Book \<Rightarrow> error + string" where
  "cite_apa b =
     (case format_authors_apa b of
        Inl e \<Rightarrow> Inl e
      | Inr auths \<Rightarrow>
          (let publisher = publisher_or_unknown b
           in Inr (auths @ '' ('' @ year b @ ''). '' @ title b @ ''. '' @ publisher @ ''.'')))"

definition cite_mla :: "Book \<Rightarrow> error + string" where
  "cite_mla b =
     (case format_authors_mla b of
        Inl e \<Rightarrow> Inl e
      | Inr auths \<Rightarrow>
          (let publisher = publisher_or_unknown b;
               sep = (if ends_with_period auths then '' '' else ''. '')
           in Inr (auths @ sep @ title b @ ''. '' @ publisher @ '', '' @ year b @ ''.'')))"

definition cite_chicago :: "Book \<Rightarrow> error + string" where
  "cite_chicago b =
     (case format_authors_chicago b of
        Inl e \<Rightarrow> Inl e
      | Inr auths \<Rightarrow>
          (let publisher = publisher_or_unknown b;
               sep = (if ends_with_period auths then '' '' else ''. '')
           in Inr (auths @ sep @ title b @ ''. '' @ publisher @ '', '' @ year b @ ''.'')))"

definition cite_harvard :: "Book \<Rightarrow> error + string" where
  "cite_harvard b =
     (case format_authors_harvard b of
        Inl e \<Rightarrow> Inl e
      | Inr auths \<Rightarrow>
          (let publisher = publisher_or_unknown b
           in Inr (auths @ '' ('' @ year b @ '') '' @ title b @ ''. '' @ publisher @ ''.'')))"

text \<open>
  The dispatch table of \<open>cite\<close>, in the order of the dictionary literal, and \<open>cite\<close>
  itself: a style whose lower-case form is no key raises \<open>ValueError\<close> with the style as
  it was given and the keys joined by a comma and a space.
\<close>

definition styles :: "(string \<times> (Book \<Rightarrow> error + string)) list" where
  "styles =
     [(''apa'', cite_apa), (''mla'', cite_mla), (''chicago'', cite_chicago),
      (''harvard'', cite_harvard)]"

definition cite :: "Book \<Rightarrow> string \<Rightarrow> error + string" where
  "cite b style =
     (case map_of styles (lower style) of
        None \<Rightarrow>
          Inl (ValueError
            (''Unsupported style: '' @ style @ ''. Use: '' @ str_join '', '' (map fst styles)))
      | Some f \<Rightarrow> f b)"

text \<open>Books used as concrete inputs below.\<close>

definition book_of :: "string list \<Rightarrow> Book" where
  "book_of names =
     \<lparr>title = ''Title'', authors = names, publisher = Some ''ACME'',
      published_date = Some ''2020-05-01'', description = None, page_count = None,
      categories = [], preview_link = None, info_link = None, isbn_10 = None,
      isbn_13 = None\<rparr>"


section \<open>Properties of the query builder\<close>

lemma foldl_append_each:
  "foldl (\<lambda>q t. q @ f t) q xs = q @ concat (map f xs)"
  by (induction xs arbitrary: q) simp_all

lemma add_exclusions_concat:
  "add_exclusions q ex = q @ concat (map (\<lambda>t. '' -'' @ t) (items_of ex))"
  by (cases ex) (simp_all add: add_exclusions_def truthy_def items_of_def foldl_append_each)

lemma build_query_unfold:
  "build_query terms ep ex it = add_exclusions (add_intitle (and_group terms ep) it) ex"
  by (simp add: build_query_def and_group_def query_parts_def)

text \<open>
  C1: the query is the term and phrase group, then the suffix \<open> intitle:"<text>"\<close> when
  an intitle text is given (a missing and an empty text both add nothing), then one
  suffix \<open> -<term>\<close> for each exclusion term in order, concatenated with nothing in
  between, whichever of the optional arguments are present. The three examples of the
  specification hold.
\<close>

theorem build_query_order:
  \<open>build_query terms ep ex it =
      and_group terms ep
      @ (case it of None \<Rightarrow> [] | Some t \<Rightarrow> if t = [] then [] else '' intitle:"'' @ t @ ''"'')
      @ concat (map (\<lambda>t. '' -'' @ t) (case ex of None \<Rightarrow> [] | Some xs \<Rightarrow> xs))
    \<and> build_query [''A''] None None None = ''A''
    \<and> build_query [''A'', ''B''] None None None = ''(A OR B)''
    \<and> build_query [''AI''] None (Some [''x'', ''y'']) None = ''AI -x -y''\<close>
proof (intro conjI)
  show \<open>build_query terms ep ex it =
      and_group terms ep
      @ (case it of None \<Rightarrow> [] | Some t \<Rightarrow> if t = [] then [] else '' intitle:"'' @ t @ ''"'')
      @ concat (map (\<lambda>t. '' -'' @ t) (case ex of None \<Rightarrow> [] | Some xs \<Rightarrow> xs))\<close>
    by (cases it; cases ex)
      (simp_all add: build_query_unfold add_exclusions_concat add_intitle_def truthy_def
        items_of_def)
  show "build_query [''A''] None None None = ''A''"
    by (simp add: build_query_def add_terms_def add_phrases_def join_parts_def
        add_intitle_def add_exclusions_def truthy_def)
  show "build_query [''A'', ''B''] None None None = ''(A OR B)''"
    by (simp add: build_query_def add_terms_def add_phrases_def join_parts_def
        add_intitle_def add_exclusions_def truthy_def)
  show "build_query [''AI''] None (Some [''x'', ''y'']) None = ''AI -x -y''"
    by (simp add: build_query_def add_terms_def add_phrases_def join_parts_def
        add_intitle_def add_exclusions_def truthy_def items_of_def)
qed

theorem build_query_order_full:
  \<open>build_query [''HRM'', ''human resource management''] (Some [''job satisfaction''])
      (Some [''education'']) (Some ''the Netherlands'')
    = ''(HRM OR human resource management) AND "job satisfaction" intitle:"the Netherlands" -education''\<close>
  using build_query_order [of "[''HRM'', ''human resource management'']"
      "Some [''job satisfaction'']" "Some [''education'']" "Some ''the Netherlands''"]
  by (simp add: and_group_def query_parts_def add_terms_def add_phrases_def add_phrase_def
      join_parts_def truthy_def items_of_def)

lemma foldl_add_phrase:
  \<open>foldl add_phrase qp ps =
     qp @ map (\<lambda>p. if CHR '' '' \<in> set p then ''"'' @ p @ ''"'' else p) ps\<close>
  by (induction ps arbitrary: qp) (simp_all add: add_phrase_def)

lemma add_phrases_map:
  \<open>add_phrases qp ep =
     qp @ map (\<lambda>p. if CHR '' '' \<in> set p then ''"'' @ p @ ''"'' else p) (items_of ep)\<close>
  by (cases ep) (simp_all add: add_phrases_def truthy_def items_of_def foldl_add_phrase)

text \<open>
  C2, as the claim states it, fails: a phrase holding a tab holds whitespace and is not
  wrapped in double quotes.
\<close>

theorem phrase_tab_not_quoted:
  \<open>isspace (CHR 0x09)
    \<and> CHR 0x09 \<in> set [CHR ''a'', CHR 0x09, CHR ''b'']
    \<and> build_query [] (Some [[CHR ''a'', CHR 0x09, CHR ''b'']]) None None
        = [CHR ''a'', CHR 0x09, CHR ''b'']
    \<and> build_query [] (Some [[CHR ''a'', CHR 0x09, CHR ''b'']]) None None
        \<noteq> ''"'' @ [CHR ''a'', CHR 0x09, CHR ''b''] @ ''"''\<close>
  by (simp add: isspace_def build_query_def add_terms_def add_phrases_def add_phrase_def
      join_parts_def add_intitle_def add_exclusions_def truthy_def items_of_def)

text \<open>
  C2, amended: every exact phrase is wrapped in double quotes if and only if it holds
  a space character (U+0020); the parts are the term group followed by the phrases in
  order; more than one part is joined with \<open> AND \<close>, exactly one part is the query as it
  is, and the example of the specification holds.
\<close>

theorem and_group_parts:
  \<open>query_parts terms ep =
      add_terms [] terms
      @ map (\<lambda>p. if CHR '' '' \<in> set p then ''"'' @ p @ ''"'' else p)
          (case ep of None \<Rightarrow> [] | Some ps \<Rightarrow> ps)
    \<and> (length (query_parts terms ep) > 1 \<longrightarrow>
          and_group terms ep = str_join '' AND '' (query_parts terms ep))
    \<and> (\<forall>x. query_parts terms ep = [x] \<longrightarrow> and_group terms ep = x)
    \<and> build_query [''HRM''] (Some [''job satisfaction'']) None None
        = ''HRM AND "job satisfaction"''\<close>
proof (intro conjI)
  show \<open>query_parts terms ep =
      add_terms [] terms
      @ map (\<lambda>p. if CHR '' '' \<in> set p then ''"'' @ p @ ''"'' else p)
          (case ep of None \<Rightarrow> [] | Some ps \<Rightarrow> ps)\<close>
    by (cases ep) (simp_all add: query_parts_def add_phrases_map items_of_def)
  show "length (query_parts terms ep) > 1 \<longrightarrow>
          and_group terms ep = str_join '' AND '' (query_parts terms ep)"
    by (simp add: and_group_def join_parts_def)
  show "\<forall>x. query_parts terms ep = [x] \<longrightarrow> and_group terms ep = x"
    by (simp add: and_group_def join_parts_def)
  show \<open>build_query [''HRM''] (Some [''job satisfaction'']) None None
        = ''HRM AND "job satisfaction"''\<close>
    by (simp add: build_query_def add_terms_def add_phrases_def add_phrase_def
        join_parts_def add_intitle_def add_exclusions_def truthy_def items_of_def)
qed

theorem and_group_parts_witness:
  \<open>length (query_parts [''AI''] (Some [''machine learning'', ''deep''])) > 1
    \<and> and_group [''AI''] (Some [''machine learning'', ''deep''])
        = ''AI AND "machine learning" AND deep''
    \<and> query_parts [] (Some [''job satisfaction'']) = [''"job satisfaction"'']
    \<and> and_group [] (Some [''job satisfaction'']) = ''"job satisfaction"''\<close>
  using and_group_parts [of "[''AI'']" "Some [''machine learning'', ''deep'']"]
    and_group_parts [of "[]" "Some [''job satisfaction'']"]
  by (simp add: add_terms_def)

section \<open>Properties of the citation formatter\<close>

subsection \<open>Tokens and initials\<close>

lemma split_ws_nonempty: "p \<in> set (split_ws tok s) \<Longrightarrow> p \<noteq> []"
  by (induction s arbitrary: tok) (auto split: if_splits)

lemma split_nonempty: "p \<in> set (split s) \<Longrightarrow> p \<noteq> []"
  unfolding split_def by (rule split_ws_nonempty)

text \<open>No token of \<open>split\<close> is empty, so \<open>p[0]\<close> never raises in \<open>initials\<close>.\<close>

lemma initials_ok:
  "(\<And>p. p \<in> set ps \<Longrightarrow> p \<noteq> []) \<Longrightarrow> initials ps = Inr (map (\<lambda>p. take 1 p @ ''.'') ps)"
proof (induction ps)
  case Nil
  then show ?case by simp
next
  case (Cons p ps)
  then have "p \<noteq> []" by simp
  then obtain c cs where "p = c # cs" by (cases p) auto
  with Cons show ?case by (simp add: index0_def)
qed

lemma format_name_ok:
  "format_name sep a =
     Inr (if length (split a) \<ge> 2
          then last (split a) @ '', ''
               @ str_join sep (map (\<lambda>p. take 1 p @ ''.'') (butlast (split a)))
          else a)"
proof -
  have "initials (butlast (split a)) = Inr (map (\<lambda>p. take 1 p @ ''.'') (butlast (split a)))"
    by (rule initials_ok) (auto dest: in_set_butlastD split_nonempty)
  then show ?thesis by (simp add: format_name_def Let_def)
qed

lemma format_loop_ok:
  "\<exists>fs. format_loop sep acc xs = Inr fs \<and> length fs = length acc + length xs"
proof (induction xs arbitrary: acc)
  case Nil
  then show ?case by simp
next
  case (Cons a xs)
  obtain f where f: "format_name sep a = Inr f"
    using format_name_ok by blast
  from Cons [of "acc @ [f]"] f show ?case by simp
qed

lemma split_names:
  "split ''Jane Q. Public'' = [''Jane'', ''Q.'', ''Public'']"
  "split ''John Doe'' = [''John'', ''Doe'']"
  "split ''Plato'' = [''Plato'']"
  by (simp_all add: split_def isspace_def)

lemma book_of_fields:
  "authors (book_of names) = names" "title (book_of names) = ''Title''"
  "publisher (book_of names) = Some ''ACME''"
  "published_date (book_of names) = Some ''2020-05-01''"
  "year (book_of names) = ''2020''"
  by (simp_all add: year_def book_of_def truthy_def items_of_def)

subsection \<open>The dispatch of cite\<close>

lemma cite_lower_names:
  "cite b ''apa'' = cite_apa b" "cite b ''mla'' = cite_mla b"
  "cite b ''chicago'' = cite_chicago b" "cite b ''harvard'' = cite_harvard b"
  by (simp_all add: cite_def styles_def lower_def lower_char_def)

lemma lower_char_idem: "lower_char (lower_char c) = lower_char c"
  by (simp add: lower_char_def Let_def)

lemma lower_idem: "lower (lower s) = lower s"
  by (simp add: lower_def lower_char_idem)

lemma cite_by_lower: "cite b s = cite b (lower s) \<or> map_of styles (lower s) = None"
  by (auto simp add: cite_def lower_idem split: option.splits)

text \<open>
  A style whose lower-case form is none of the four raises \<open>ValueError\<close>; the message
  holds the style as given and the four styles.
\<close>

lemma cite_unsupported:
  "lower s \<notin> {''apa'', ''mla'', ''chicago'', ''harvard''} \<Longrightarrow>
     cite b s =
       Inl (ValueError (''Unsupported style: '' @ s @ ''. Use: apa, mla, chicago, harvard''))"
  by (simp add: cite_def styles_def)

lemma format_authors_apa_ok: "\<exists>a. format_authors_apa b = Inr a"
  using format_loop_ok [of "'' ''" "[]" "authors b"]
  by (auto simp add: format_authors_apa_def formatted_apa_def)

lemma format_authors_harvard_ok: "\<exists>a. format_authors_harvard b = Inr a"
  using format_loop_ok [of "[]" "[]" "authors b"]
  by (auto simp add: format_authors_harvard_def formatted_harvard_def)

lemma first_formatted_no_value_error: "first_formatted first \<noteq> Inl (ValueError m)"
  by (simp add: first_formatted_def index0_def split: list.splits)

lemma format_authors_mla_no_value_error: "format_authors_mla b \<noteq> Inl (ValueError m)"
  using first_formatted_no_value_error [of "split (authors b ! 0)" m]
  by (auto simp add: format_authors_mla_def Let_def split: sum.splits)

lemma cite_styles_no_value_error:
  "cite_apa b \<noteq> Inl (ValueError m)" "cite_mla b \<noteq> Inl (ValueError m)"
  "cite_chicago b \<noteq> Inl (ValueError m)" "cite_harvard b \<noteq> Inl (ValueError m)"
proof -
  show "cite_apa b \<noteq> Inl (ValueError m)"
    using format_authors_apa_ok [of b] by (auto simp add: cite_apa_def)
  show "cite_harvard b \<noteq> Inl (ValueError m)"
    using format_authors_harvard_ok [of b] by (auto simp add: cite_harvard_def)
  show "cite_mla b \<noteq> Inl (ValueError m)"
    using format_authors_mla_no_value_error [of b m]
    by (auto simp add: cite_mla_def Let_def split: sum.splits)
  then show "cite_chicago b \<noteq> Inl (ValueError m)"
    by (simp add: cite_chicago_def cite_mla_def format_authors_chicago_def)
qed

subsection \<open>APA with one author\<close>

lemma cite_apa_one_author:
  assumes "authors b = [a]" and "split a = given @ [surname]" and "given \<noteq> []"
    and "published_date b = Some d" and "d \<noteq> []" and "publisher b = Some p" and "p \<noteq> []"
  shows "cite_apa b =
     Inr (surname @ '', '' @ str_join '' '' (map (\<lambda>g. take 1 g @ ''.'') given)
          @ '' ('' @ take 4 d @ ''). '' @ title b @ ''. '' @ p @ ''.'')"
proof -
  from assms(3) have len: "length (split a) \<ge> 2"
    using assms(2) by (cases given) simp_all
  have "format_name '' '' a =
      Inr (surname @ '', '' @ str_join '' '' (map (\<lambda>g. take 1 g @ ''.'') given))"
    using len assms(2) by (simp add: format_name_ok)
  then have "format_authors_apa b =
      Inr (surname @ '', '' @ str_join '' '' (map (\<lambda>g. take 1 g @ ''.'') given))"
    using assms(1) by (simp add: format_authors_apa_def formatted_apa_def)
  then show ?thesis
    using assms(4-7)
    by (simp add: cite_apa_def year_def publisher_or_unknown_def truthy_def items_of_def)
qed

lemma split_jane: "split ''Jane Q. Public'' = [''Jane'', ''Q.''] @ [''Public'']"
  by (simp add: split_names)

text \<open>
  C3: a Book whose only author is \<open>Jane Q. Public\<close>, with published date \<open>2020-05-01\<close>,
  publisher \<open>ACME\<close> and title \<open>Title\<close>, has the APA citation
  \<open>Public, J. Q. (2020). Title. ACME.\<close> In general, for one author of two or more
  tokens the last token is the surname, every token before it gives its first
  character and a period, the initials are separated by spaces, and the year is the
  first four characters of the published date.
\<close>

theorem cite_apa_single_author:
  "(authors b = [''Jane Q. Public''] \<and> published_date b = Some ''2020-05-01''
      \<and> publisher b = Some ''ACME'' \<and> title b = ''Title''
      \<longrightarrow> cite b ''apa'' = Inr ''Public, J. Q. (2020). Title. ACME.'')
   \<and> (\<forall>a given surname d p.
        authors b = [a] \<and> split a = given @ [surname] \<and> given \<noteq> []
        \<and> published_date b = Some d \<and> d \<noteq> [] \<and> publisher b = Some p \<and> p \<noteq> []
        \<longrightarrow> cite b ''apa'' =
              Inr (surname @ '', '' @ str_join '' '' (map (\<lambda>g. take 1 g @ ''.'') given)
                   @ '' ('' @ take 4 d @ ''). '' @ title b @ ''. '' @ p @ ''.''))"
proof (intro conjI impI allI)
  assume h: "authors b = [''Jane Q. Public''] \<and> published_date b = Some ''2020-05-01''
      \<and> publisher b = Some ''ACME'' \<and> title b = ''Title''"
  have "cite_apa b =
     Inr (''Public'' @ '', ''
          @ str_join '' '' (map (\<lambda>g. take 1 g @ ''.'') [''Jane'', ''Q.''])
          @ '' ('' @ take 4 ''2020-05-01'' @ ''). '' @ title b @ ''. '' @ ''ACME'' @ ''.'')"
    by (rule cite_apa_one_author [OF _ split_jane]) (use h in simp_all)
  then show "cite b ''apa'' = Inr ''Public, J. Q. (2020). Title. ACME.''"
    using h by (simp add: cite_lower_names)
next
  fix a given surname d p
  assume "authors b = [a] \<and> split a = given @ [surname] \<and> given \<noteq> []
        \<and> published_date b = Some d \<and> d \<noteq> [] \<and> publisher b = Some p \<and> p \<noteq> []"
  then show "cite b ''apa'' =
              Inr (surname @ '', '' @ str_join '' '' (map (\<lambda>g. take 1 g @ ''.'') given)
                   @ '' ('' @ take 4 d @ ''). '' @ title b @ ''. '' @ p @ ''.'')"
    by (simp add: cite_lower_names cite_apa_one_author)
qed

theorem cite_apa_single_author_witness:
  "authors (book_of [''Jane Q. Public'']) = [''Jane Q. Public'']
   \<and> published_date (book_of [''Jane Q. Public'']) = Some ''2020-05-01''
   \<and> publisher (book_of [''Jane Q. Public'']) = Some ''ACME''
   \<and> title (book_of [''Jane Q. Public'']) = ''Title''
   \<and> split ''Jane Q. Public'' = [''Jane'', ''Q.''] @ [''Public'']
   \<and> cite (book_of [''Jane Q. Public'']) ''apa'' = Inr ''Public, J. Q. (2020). Title. ACME.''"
  using cite_apa_single_author [of "book_of [''Jane Q. Public'']"]
  by (simp add: book_of_fields split_jane)

subsection \<open>Joining the authors\<close>

lemma length_two: "length xs = 2 \<Longrightarrow> \<exists>x y. xs = [x, y]"
  by (cases xs; cases "tl xs") auto

text \<open>
  C4: with three or more authors the APA author string is the formatted authors but
  the last joined with a comma and a space, then \<open>, & \<close>, then the last one, and the
  Harvard author string is the same join, then \<open> and \<close> with no comma before it, then
  the last one. With exactly two authors APA joins the two with \<open> & \<close> and Harvard
  with \<open> and \<close>. The loop over the authors never fails and formats every author.
\<close>

theorem author_joins:
  "(3 \<le> length (authors b) \<longrightarrow>
      (\<exists>fa fh. formatted_apa b = Inr fa \<and> length fa = length (authors b)
         \<and> format_authors_apa b = Inr (str_join '', '' (butlast fa) @ '', & '' @ last fa)
         \<and> formatted_harvard b = Inr fh \<and> length fh = length (authors b)
         \<and> format_authors_harvard b
             = Inr (str_join '', '' (butlast fh) @ '' and '' @ last fh)))
   \<and> (length (authors b) = 2 \<longrightarrow>
      (\<exists>x y u v. formatted_apa b = Inr [x, y]
         \<and> format_authors_apa b = Inr (x @ '' & '' @ y)
         \<and> formatted_harvard b = Inr [u, v]
         \<and> format_authors_harvard b = Inr (u @ '' and '' @ v)))"
proof -
  obtain fa where fa: "formatted_apa b = Inr fa" "length fa = length (authors b)"
    using format_loop_ok [of "'' ''" "[]" "authors b"] by (auto simp: formatted_apa_def)
  obtain fh where fh: "formatted_harvard b = Inr fh" "length fh = length (authors b)"
    using format_loop_ok [of "[]" "[]" "authors b"] by (auto simp: formatted_harvard_def)
  have three: "3 \<le> length (authors b) \<longrightarrow>
      (\<exists>fa fh. formatted_apa b = Inr fa \<and> length fa = length (authors b)
         \<and> format_authors_apa b = Inr (str_join '', '' (butlast fa) @ '', & '' @ last fa)
         \<and> formatted_harvard b = Inr fh \<and> length fh = length (authors b)
         \<and> format_authors_harvard b
             = Inr (str_join '', '' (butlast fh) @ '' and '' @ last fh))"
  proof
    assume n: "3 \<le> length (authors b)"
    then have ne: "authors b \<noteq> []" by auto
    have "format_authors_apa b = Inr (str_join '', '' (butlast fa) @ '', & '' @ last fa)"
      using n ne fa by (simp add: format_authors_apa_def)
    moreover
    have "format_authors_harvard b
        = Inr (str_join '', '' (butlast fh) @ '' and '' @ last fh)"
      using n ne fh by (simp add: format_authors_harvard_def)
    ultimately show "\<exists>fa fh. formatted_apa b = Inr fa \<and> length fa = length (authors b)
         \<and> format_authors_apa b = Inr (str_join '', '' (butlast fa) @ '', & '' @ last fa)
         \<and> formatted_harvard b = Inr fh \<and> length fh = length (authors b)
         \<and> format_authors_harvard b
             = Inr (str_join '', '' (butlast fh) @ '' and '' @ last fh)"
      using fa fh by blast
  qed
  have two: "length (authors b) = 2 \<longrightarrow>
      (\<exists>x y u v. formatted_apa b = Inr [x, y]
         \<and> format_authors_apa b = Inr (x @ '' & '' @ y)
         \<and> formatted_harvard b = Inr [u, v]
         \<and> format_authors_harvard b = Inr (u @ '' and '' @ v))"
  proof
    assume n: "length (authors b) = 2"
    then have ne: "authors b \<noteq> []" by auto
    from n fa obtain x y where xy: "fa = [x, y]" using length_two [of fa] by auto
    from n fh obtain u v where uv: "fh = [u, v]" using length_two [of fh] by auto
    have "format_authors_apa b = Inr (x @ '' & '' @ y)"
      using ne fa xy by (simp add: format_authors_apa_def)
    moreover have "format_authors_harvard b = Inr (u @ '' and '' @ v)"
      using ne fh uv by (simp add: format_authors_harvard_def)
    ultimately show "\<exists>x y u v. formatted_apa b = Inr [x, y]
         \<and> format_authors_apa b = Inr (x @ '' & '' @ y)
         \<and> formatted_harvard b = Inr [u, v]
         \<and> format_authors_harvard b = Inr (u @ '' and '' @ v)"
      using fa fh xy uv by blast
  qed
  from three two show ?thesis by (rule conjI)
qed

theorem author_joins_witness:
  "3 \<le> length (authors (book_of [''Jane Q. Public'', ''John Doe'', ''Plato'']))
   \<and> format_authors_apa (book_of [''Jane Q. Public'', ''John Doe'', ''Plato''])
       = Inr ''Public, J. Q., Doe, J., & Plato''
   \<and> format_authors_harvard (book_of [''Jane Q. Public'', ''John Doe'', ''Plato''])
       = Inr ''Public, J.Q., Doe, J. and Plato''
   \<and> length (authors (book_of [''Jane Q. Public'', ''John Doe''])) = 2
   \<and> format_authors_apa (book_of [''Jane Q. Public'', ''John Doe''])
       = Inr ''Public, J. Q. & Doe, J.''
   \<and> format_authors_harvard (book_of [''Jane Q. Public'', ''John Doe''])
       = Inr ''Public, J.Q. and Doe, J.''"
  using author_joins [of "book_of [''Jane Q. Public'', ''John Doe'', ''Plato'']"]
    author_joins [of "book_of [''Jane Q. Public'', ''John Doe'']"]
  by (auto simp add: book_of_fields formatted_apa_def formatted_harvard_def format_name_ok
      split_names)

subsection \<open>MLA and Chicago\<close>

text \<open>
  C5: whenever the MLA author string \<open>a\<close> is produced, the MLA citation and the Chicago
  citation are both \<open>a\<close>, then a single space if \<open>a\<close> ends in a period and a period and
  a space otherwise, then the title, a period and a space, the publisher (or
  \<open>Publisher unknown\<close> when there is none), a comma and a space, the year, a period.
\<close>

theorem mla_chicago_template:
  "format_authors_mla b = Inr a \<Longrightarrow>
     cite_mla b =
       Inr (a @ (if a \<noteq> [] \<and> last a = CHR ''.'' then '' '' else ''. '') @ title b @ ''. ''
            @ (case publisher b of None \<Rightarrow> ''Publisher unknown''
               | Some p \<Rightarrow> if p = [] then ''Publisher unknown'' else p)
            @ '', '' @ year b @ ''.'')
     \<and> cite_chicago b =
       Inr (a @ (if a \<noteq> [] \<and> last a = CHR ''.'' then '' '' else ''. '') @ title b @ ''. ''
            @ (case publisher b of None \<Rightarrow> ''Publisher unknown''
               | Some p \<Rightarrow> if p = [] then ''Publisher unknown'' else p)
            @ '', '' @ year b @ ''.'')"
  by (cases "publisher b")
    (simp_all add: cite_mla_def cite_chicago_def format_authors_chicago_def
      ends_with_period_def publisher_or_unknown_def truthy_def items_of_def)

theorem mla_chicago_template_witness:
  "format_authors_mla (book_of [''Jane Q. Public'', ''John Doe'', ''Plato''])
     = Inr ''Public, Jane Q., et al.''
   \<and> cite_mla (book_of [''Jane Q. Public'', ''John Doe'', ''Plato''])
     = Inr ''Public, Jane Q., et al. Title. ACME, 2020.''
   \<and> cite_chicago (book_of [''Jane Q. Public'', ''John Doe'', ''Plato''])
     = Inr ''Public, Jane Q., et al. Title. ACME, 2020.''
   \<and> format_authors_mla (book_of [''Plato'']) = Inr ''Plato''
   \<and> cite_mla (book_of [''Plato'']) = Inr ''Plato. Title. ACME, 2020.''"
proof -
  have a: "format_authors_mla (book_of [''Jane Q. Public'', ''John Doe'', ''Plato''])
     = Inr ''Public, Jane Q., et al.''"
    "format_authors_mla (book_of [''Plato'']) = Inr ''Plato''"
    by (simp_all add: format_authors_mla_def first_formatted_def book_of_fields split_names)
  show ?thesis
    using mla_chicago_template [OF a(1)] mla_chicago_template [OF a(2)]
    by (simp add: a book_of_fields)
qed

text \<open>
  C9: the Chicago citation of every Book is its MLA citation, and the Chicago author
  string is the MLA author string.
\<close>

theorem chicago_is_mla:
  "cite_chicago b = cite_mla b \<and> format_authors_chicago b = format_authors_mla b"
  by (simp add: cite_chicago_def cite_mla_def format_authors_chicago_def)

theorem chicago_is_mla_witness:
  "cite_chicago (book_of [''Jane Q. Public'', ''John Doe''])
     = cite_mla (book_of [''Jane Q. Public'', ''John Doe''])
   \<and> format_authors_chicago (book_of [''Jane Q. Public'', ''John Doe''])
     = Inr ''Public, Jane Q., and John Doe''"
  using chicago_is_mla [of "book_of [''Jane Q. Public'', ''John Doe'']"]
  by (simp add: format_authors_mla_def first_formatted_def book_of_fields split_names)

subsection \<open>Styles\<close>

text \<open>
  C7: a valid style is meant to give a citation and not to fail, but \<open>cite\<close> with the
  style \<open>mla\<close> raises \<open>IndexError\<close> for a Book of two authors whose first author is the
  empty string.
\<close>

theorem cite_mla_index_error:
  "lower ''mla'' \<in> {''apa'', ''mla'', ''chicago'', ''harvard''}
   \<and> cite (book_of ['''', ''John Doe'']) ''mla'' = Inl IndexError"
  by (simp add: cite_lower_names cite_mla_def format_authors_mla_def first_formatted_def
      index0_def book_of_fields split_def lower_def lower_char_def)

text \<open>
  C10: for a style whose lower-case form is one of the four styles, \<open>cite\<close> gives for
  the style what it gives for its lower-case form, and does not raise \<open>ValueError\<close>.
\<close>

theorem cite_case_insensitive:
  "lower s \<in> {''apa'', ''mla'', ''chicago'', ''harvard''} \<Longrightarrow>
     cite b s = cite b (lower s) \<and> (\<forall>m. cite b s \<noteq> Inl (ValueError m))"
proof -
  assume valid: "lower s \<in> {''apa'', ''mla'', ''chicago'', ''harvard''}"
  then have dispatch: "cite b s \<in> {cite_apa b, cite_mla b, cite_chicago b, cite_harvard b}"
    by (auto simp add: cite_def styles_def)
  from valid have "map_of styles (lower s) \<noteq> None"
    by (auto simp add: styles_def)
  with cite_by_lower [of b s] have "cite b s = cite b (lower s)" by simp
  moreover from dispatch have "\<forall>m. cite b s \<noteq> Inl (ValueError m)"
    using cite_styles_no_value_error [of b] by auto
  ultimately show ?thesis by simp
qed

theorem cite_case_insensitive_witness:
  "lower ''APA'' \<in> {''apa'', ''mla'', ''chicago'', ''harvard''}
   \<and> cite (book_of [''Jane Q. Public'']) ''APA'' = cite (book_of [''Jane Q. Public'']) ''apa''
   \<and> cite (book_of [''Jane Q. Public'']) ''APA'' = Inr ''Public, J. Q. (2020). Title. ACME.''
   \<and> lower ''Mla'' \<in> {''apa'', ''mla'', ''chicago'', ''harvard''}
   \<and> cite (book_of [''Jane Q. Public'']) ''Mla'' = Inr ''Public, Jane Q. Title. ACME, 2020.''"
proof -
  have l: "lower ''APA'' = ''apa''" "lower ''Mla'' = ''mla''"
    by code_simp+
  have v: "cite (book_of [''Jane Q. Public'']) ''apa''
      = Inr ''Public, J. Q. (2020). Title. ACME.''"
    "cite (book_of [''Jane Q. Public'']) ''mla'' = Inr ''Public, Jane Q. Title. ACME, 2020.''"
    by code_simp+
  show ?thesis
    using cite_case_insensitive [of "''APA''" "book_of [''Jane Q. Public'']"]
      cite_case_insensitive [of "''Mla''" "book_of [''Jane Q. Public'']"]
    by (simp add: l v)
qed


section \<open>Properties of the search generators\<close>

text \<open>
  A generator suspended at its \<open>yield\<close> with \<open>count = c\<close> still gives
  \<open>limit - (c + 1)\<close> records, one per upstream result, and takes one result more.
\<close>

lemma list_of_gen_at_yield:
  "pc g = AtYield \<Longrightarrow>
     fst (list_of_gen record_of g)
       = map record_of (take (nat (limit g - (count g + 1))) (search_query g))
     \<and> search_query (snd (list_of_gen record_of g))
       = drop (Suc (nat (limit g - (count g + 1)))) (search_query g)
     \<and> pc (snd (list_of_gen record_of g)) = Finished"
proof (induction "search_query g" arbitrary: g)
  case Nil
  then show ?case
    by (subst (1 2 3) list_of_gen.simps) (simp add: gen_next_def loop_turn_def)
next
  case (Cons r rs)
  show ?case
  proof (cases "count g + 1 \<ge> limit g")
    case True
    with Cons(2,3) show ?thesis
      by (subst (1 2 3) list_of_gen.simps)
        (simp add: gen_next_def loop_turn_def Cons(2) [symmetric])
  next
    case False
    let ?g' = "g\<lparr>count := count g + 1, search_query := rs, pc := AtYield\<rparr>"
    have step: "gen_next record_of g = (Some (record_of r), ?g')"
      using False Cons(2,3) by (simp add: gen_next_def loop_turn_def Cons(2) [symmetric])
    have ih: "fst (list_of_gen record_of ?g')
       = map record_of (take (nat (limit ?g' - (count ?g' + 1))) (search_query ?g'))
     \<and> search_query (snd (list_of_gen record_of ?g'))
       = drop (Suc (nat (limit ?g' - (count ?g' + 1)))) (search_query ?g')
     \<and> pc (snd (list_of_gen record_of ?g')) = Finished"
      by (rule Cons(1)) simp_all
    from False have n: "nat (limit g - (count g + 1)) = Suc (nat (limit g - (count g + 1 + 1)))"
      by simp
    show ?thesis
      using ih
      by (subst (1 2 3) list_of_gen.simps)
        (simp add: step n Cons(2) [symmetric] case_prod_beta)
  qed
qed

lemma list_of_gen_not_started:
  assumes "pc g = NotStarted"
  shows "fst (list_of_gen record_of g) = map record_of (take (nat (limit g)) (search_query g))"
    and "search_query (snd (list_of_gen record_of g))
          = drop (Suc (nat (limit g))) (search_query g)"
    and "pc (snd (list_of_gen record_of g)) = Finished"
proof -
  have all: "fst (list_of_gen record_of g)
      = map record_of (take (nat (limit g)) (search_query g))
    \<and> search_query (snd (list_of_gen record_of g))
      = drop (Suc (nat (limit g))) (search_query g)
    \<and> pc (snd (list_of_gen record_of g)) = Finished"
  proof (cases "search_query g")
    case Nil
    with assms show ?thesis
      by (subst (1 2 3) list_of_gen.simps) (simp add: gen_next_def loop_turn_def)
  next
    case (Cons r rs)
    show ?thesis
    proof (cases "0 \<ge> limit g")
      case True
      with Cons assms show ?thesis
        by (subst (1 2 3) list_of_gen.simps) (simp add: gen_next_def loop_turn_def)
    next
      case False
      let ?g' = "g\<lparr>count := 0, search_query := rs, pc := AtYield\<rparr>"
      have step: "gen_next record_of g = (Some (record_of r), ?g')"
        using False Cons assms by (simp add: gen_next_def loop_turn_def)
      from False have n: "nat (limit g) = Suc (nat (limit g - 1))"
        by simp
      have "pc ?g' = AtYield" by simp
      from list_of_gen_at_yield [OF this, of record_of] show ?thesis
        by (subst (1 2 3) list_of_gen.simps) (simp add: step n Cons case_prod_beta)
    qed
  qed
  from all show "fst (list_of_gen record_of g)
      = map record_of (take (nat (limit g)) (search_query g))"
    and "search_query (snd (list_of_gen record_of g))
      = drop (Suc (nat (limit g))) (search_query g)"
    and "pc (snd (list_of_gen record_of g)) = Finished"
    by simp_all
qed

lemma length_ten_papers: "length (ten_papers q ys ye) = 10"
  by (simp add: ten_papers_def)

text \<open>
  C6, as the claim states it, fails: with ten upstream results and the limit 3 the
  generator, run to its end, gives three records and has taken four results from the
  upstream iterator, one after the limit was reached.
\<close>

theorem search_publications_takes_one_more:
  "length (ten_papers ''test'' None None) = 10
   \<and> length (fst (list_of_gen publication_of
        (search_publications ten_papers ''test'' 3 None None))) = 3
   \<and> taken (ten_papers ''test'' None None)
        (snd (list_of_gen publication_of
          (search_publications ten_papers ''test'' 3 None None))) = 4
   \<and> \<not> taken (ten_papers ''test'' None None)
        (snd (list_of_gen publication_of
          (search_publications ten_papers ''test'' 3 None None))) \<le> 3"
  by (simp add: list_of_gen_not_started search_publications_def taken_def length_ten_papers)

text \<open>
  C6, amended: for every upstream result sequence and every limit, the generator run
  to its end gives the records of the first \<open>limit\<close> upstream results in order (none
  for a negative limit), that is \<open>min (max limit 0) n\<close> records for \<open>n\<close> upstream
  results, and it takes \<open>min n (max limit 0 + 1)\<close> results from the upstream iterator:
  at most one after the last record, and the rest stays with the iterator.
\<close>

theorem search_publications_limit:
  "fst (list_of_gen publication_of (search_publications search_pubs query lim ys ye))
     = map publication_of (take (nat lim) (search_pubs query ys ye))
   \<and> length (fst (list_of_gen publication_of (search_publications search_pubs query lim ys ye)))
     = min (nat (max lim 0)) (length (search_pubs query ys ye))
   \<and> search_query (snd (list_of_gen publication_of
        (search_publications search_pubs query lim ys ye)))
     = drop (nat (max lim 0) + 1) (search_pubs query ys ye)
   \<and> taken (search_pubs query ys ye)
        (snd (list_of_gen publication_of (search_publications search_pubs query lim ys ye)))
     = min (length (search_pubs query ys ye)) (nat (max lim 0) + 1)"
  by (auto simp add: list_of_gen_not_started search_publications_def taken_def max_def)

theorem search_publications_limit_witness:
  "length (fst (list_of_gen publication_of
        (search_publications ten_papers ''test'' 3 None None))) = 3
   \<and> search_query (snd (list_of_gen publication_of
        (search_publications ten_papers ''test'' 3 None None))) = map paper [4..<10]
   \<and> length (fst (list_of_gen publication_of
        (search_publications ten_papers ''test'' (- 1) None None))) = 0
   \<and> length (fst (list_of_gen publication_of
        (search_publications ten_papers ''test'' 12 None None))) = 10"
  using search_publications_limit [of ten_papers "''test''" 3 None None]
    search_publications_limit [of ten_papers "''test''" "- 1" None None]
    search_publications_limit [of ten_papers "''test''" 12 None None]
  by (simp add: ten_papers_def drop_map)


section \<open>Properties of the author lookup\<close>

text \<open>
  C8: when the upstream lookup raises, in \<open>search_author_id\<close> or in \<open>fill\<close>,
  \<open>get_author_details\<close> returns \<open>None\<close>; when both succeed it returns an Author whose
  numeric fields are 0 and whose list field is empty where the response has no such
  key, and are the values of the response otherwise.
\<close>

theorem get_author_details_faults:
  "(\<forall>e. search_author_id scholarly scholar_id = Inl e \<longrightarrow>
       get_author_details scholarly scholar_id = None)
   \<and> (\<forall>r e. search_author_id scholarly scholar_id = Inr r \<and> fill scholarly r = Inl e \<longrightarrow>
       get_author_details scholarly scholar_id = None)
   \<and> (\<forall>r r'. search_author_id scholarly scholar_id = Inr r \<and> fill scholarly r = Inr r' \<longrightarrow>
       (\<exists>a. get_author_details scholarly scholar_id = Some a
          \<and> a_citations a = (case r' ''citedby'' of None \<Rightarrow> PyInt 0 | Some v \<Rightarrow> v)
          \<and> a_h_index a = (case r' ''hindex'' of None \<Rightarrow> PyInt 0 | Some v \<Rightarrow> v)
          \<and> a_i10_index a = (case r' ''i10index'' of None \<Rightarrow> PyInt 0 | Some v \<Rightarrow> v)
          \<and> a_interests a = (case r' ''interests'' of None \<Rightarrow> PyList [] | Some v \<Rightarrow> v)))"
  by (simp add: get_author_details_def author_of_def dict_get_def)

theorem get_author_details_faults_witness:
  "get_author_details (lookup_fails :: string scholarly) ''XrH4VJUAAAAJ'' = None
   \<and> get_author_details (fill_fails :: string scholarly) ''XrH4VJUAAAAJ'' = None
   \<and> (\<exists>a. get_author_details (lookup_succeeds :: string scholarly) ''XrH4VJUAAAAJ'' = Some a
        \<and> a_citations a = PyInt 0 \<and> a_h_index a = PyInt 5 \<and> a_i10_index a = PyInt 0
        \<and> a_interests a = PyList [])"
  using get_author_details_faults [of "lookup_fails :: string scholarly" "''XrH4VJUAAAAJ''"]
    get_author_details_faults [of "fill_fails :: string scholarly" "''XrH4VJUAAAAJ''"]
    get_author_details_faults [of "lookup_succeeds :: string scholarly" "''XrH4VJUAAAAJ''"]
  by (simp add: lookup_fails_def fill_fails_def lookup_succeeds_def)

end
